theory Spec2Isabelle
  imports Complex_Main "HOL-Library.Word" "HOL-Library.Sublist"
begin

unbundle bit_operations_syntax

section \<open>Go values used by \<open>internal/meters/sunspec.go\<close>\<close>

type_synonym byte = "8 word"
type_synonym uint16 = "16 word"
type_synonym uint32 = "32 word"

text \<open>
  A run-time panic of the Go program is a value of the model. The two kinds that the
  code of this file can raise are a slice expression whose bounds are out of range and an
  index expression (inside \<open>encoding/binary\<close>) that is out of range.
\<close>

datatype fault = SliceBoundsOutOfRange | IndexOutOfRange

text \<open>
  A Go \<open>[]byte\<close> is a window on a backing array: \<open>elems\<close> are the \<open>len(b)\<close> bytes of
  the slice, \<open>spare\<close> are the bytes of the backing array that follow them up to the
  capacity. The language checks an index against the length, and the upper bound of a
  slice expression \<open>b[lo:hi]\<close> against the capacity, so both are part of the value.
\<close>

record bytes =
  elems :: "byte list"
  spare :: "byte list"

definition len :: "bytes \<Rightarrow> int" where
  "len b = int (length (elems b))"

definition cap :: "bytes \<Rightarrow> int" where
  "cap b = int (length (elems b) + length (spare b))"

text \<open>
  Sequencing of steps that may panic: the first fault ends the computation, as a panic
  unwinds the Go function.
\<close>

definition and_then :: "fault + 'a \<Rightarrow> ('a \<Rightarrow> fault + 'b) \<Rightarrow> fault + 'b" where
  "and_then r k = (case r of Inl f \<Rightarrow> Inl f | Inr x \<Rightarrow> k x)"

text \<open>\<open>b[lo:]\<close>: the upper bound defaults to \<open>len(b)\<close>; the capacity is kept.\<close>

definition slice_from :: "bytes \<Rightarrow> int \<Rightarrow> fault + bytes" where
  "slice_from b lo =
     (if 0 \<le> lo \<and> lo \<le> len b
      then Inr \<lparr>elems = drop (nat lo) (elems b), spare = spare b\<rparr>
      else Inl SliceBoundsOutOfRange)"

text \<open>\<open>b[lo:hi]\<close>: in range when \<open>0 \<le> lo \<le> hi \<le> cap(b)\<close>.\<close>

definition slice_range :: "bytes \<Rightarrow> int \<Rightarrow> int \<Rightarrow> fault + bytes" where
  "slice_range b lo hi =
     (if 0 \<le> lo \<and> lo \<le> hi \<and> hi \<le> cap b
      then Inr \<lparr>elems = take (nat (hi - lo)) (drop (nat lo) (elems b @ spare b)),
                spare = drop (nat hi) (elems b @ spare b)\<rparr>
      else Inl SliceBoundsOutOfRange)"

text \<open>
  \<open>binary.BigEndian.Uint16\<close> and \<open>Uint32\<close>: a bounds check on the last byte read
  (\<open>_ = b[1]\<close>, \<open>_ = b[3]\<close>), then the bytes combined most significant first, as in
  \<open>uint16(b[1]) | uint16(b[0])<<8\<close>.
\<close>

definition be16 :: "byte \<Rightarrow> byte \<Rightarrow> uint16" where
  "be16 x y = ucast y OR push_bit 8 (ucast x)"

definition be32 :: "byte \<Rightarrow> byte \<Rightarrow> byte \<Rightarrow> byte \<Rightarrow> uint32" where
  "be32 a b c d =
     ucast d OR push_bit 8 (ucast c) OR push_bit 16 (ucast b) OR push_bit 24 (ucast a)"

definition Uint16 :: "bytes \<Rightarrow> fault + uint16" where
  "Uint16 b =
     (if len b < 2 then Inl IndexOutOfRange
      else Inr (be16 (elems b ! 0) (elems b ! 1)))"

definition Uint32 :: "bytes \<Rightarrow> fault + uint32" where
  "Uint32 b =
     (if len b < 4 then Inl IndexOutOfRange
      else Inr (be32 (elems b ! 0) (elems b ! 1) (elems b ! 2) (elems b ! 3)))"

text \<open>\<open>string(b)\<close>: the \<open>len(b)\<close> bytes of the slice, as characters.\<close>

definition string_of :: "bytes \<Rightarrow> string" where
  "string_of b = map (\<lambda>w. char_of (unat w)) (elems b)"

text \<open>
  \<open>strings.TrimRight(s, cutset)\<close> for a cutset of ASCII characters (the only use here is
  the cutset of space and NUL): trailing bytes are removed while they belong to the cutset.
\<close>

definition TrimRight :: "string \<Rightarrow> string \<Rightarrow> string" where
  "TrimRight s cutset = rev (dropWhile (\<lambda>c. c \<in> set cutset) (rev s))"

section \<open>Constants\<close>

definition sunspecBase :: uint16 where "sunspecBase = 40000"
definition sunspecID :: int where "sunspecID = 1"
definition sunspecModelID :: int where "sunspecModelID = 3"
definition sunspecManufacturer :: int where "sunspecManufacturer = 5"
definition sunspecModel :: int where "sunspecModel = 21"
definition sunspecVersion :: int where "sunspecVersion = 45"
definition sunspecSerial :: int where "sunspecSerial = 53"
definition sunsSignature :: uint32 where "sunsSignature = 0x53756e53"

section \<open>The common block decoder\<close>

record SunSpecDeviceDescriptor =
  Manufacturer :: string
  Model :: string
  Version :: string
  Serial :: string

text \<open>The two errors that \<open>DecodeSunSpecCommonBlock\<close> creates with \<open>errors.New\<close>.\<close>

datatype error = CouldNotReadDescriptor | InvalidSignature

definition zero_descriptor :: SunSpecDeviceDescriptor where
  "zero_descriptor = \<lparr>Manufacturer = [], Model = [], Version = [], Serial = []\<rparr>"

text \<open>
  \<open>stringDecode(b, reg, len)\<close>. The parameter named \<open>len\<close> in the source is \<open>n\<close> here.
  The slice taken is \<open>b[start:end-1]\<close>.
\<close>

definition stringDecode :: "bytes \<Rightarrow> int \<Rightarrow> int \<Rightarrow> fault + string" where
  "stringDecode b reg n =
     (let start = 2 * (reg - 1);
          end' = 2 * (reg + n - 1)
      in and_then (slice_range b start (end' - 1))
           (\<lambda>s. Inr (TrimRight (string_of s) [CHR '' '', CHR 0x00])))"

text \<open>
  \<open>DecodeSunSpecCommonBlock\<close> returns a pair (descriptor, error); \<open>None\<close> is Go's \<open>nil\<close>
  error. A panic is \<open>Inl\<close>. The four fields are decoded in the order of the source, so
  the first field whose slice is out of range decides the fault.
\<close>

definition DecodeSunSpecCommonBlock ::
    "bytes \<Rightarrow> fault + (SunSpecDeviceDescriptor \<times> error option)" where
  "DecodeSunSpecCommonBlock b =
     (let res = zero_descriptor in
      if len b < sunspecSerial + 2 * 16 then Inr (res, Some CouldNotReadDescriptor)
      else
        and_then (slice_from b (sunspecID - 1)) (\<lambda>b0.
        and_then (Uint32 b0) (\<lambda>u.
          if u \<noteq> sunsSignature then Inr (res, Some InvalidSignature)
          else
            and_then (stringDecode b sunspecManufacturer 16) (\<lambda>s1.
            and_then (stringDecode b sunspecModel 16) (\<lambda>s2.
            and_then (stringDecode b sunspecVersion 8) (\<lambda>s3.
            and_then (stringDecode b sunspecSerial 16) (\<lambda>s4.
              Inr (res\<lparr>Manufacturer := s1, Model := s2, Version := s3, Serial := s4\<rparr>,
                   None))))))))"

section \<open>Floating point\<close>

text \<open>
  The code uses five operations on \<open>float64\<close>: \<open>math.NaN()\<close>, \<open>math.IsNaN\<close>, the
  conversion \<open>float64(u)\<close> of a \<open>uint16\<close>, \<open>math.Pow10\<close> and the product. They are
  a parameter of the model, so that every theorem holds of IEEE 754 binary64 with its
  rounding as of any other implementation. What a theorem needs of them is a hypothesis:
  \<open>math.NaN()\<close> is a NaN, and the conversion of an integer is never one.
\<close>

record 'f float64_ops =
  NaN :: 'f
  IsNaN :: "'f \<Rightarrow> bool"
  of_uint16 :: "uint16 \<Rightarrow> 'f"
  Pow10 :: "int \<Rightarrow> 'f"
  mul :: "'f \<Rightarrow> 'f \<Rightarrow> 'f"

definition nan_sound :: "'f float64_ops \<Rightarrow> bool" where
  "nan_sound F \<longleftrightarrow> IsNaN F (NaN F) \<and> (\<forall>u. \<not> IsNaN F (of_uint16 F u))"

text \<open>\<open>RTUUint16ToFloat64WithNaN\<close>\<close>

definition RTUUint16ToFloat64WithNaN :: "'f float64_ops \<Rightarrow> bytes \<Rightarrow> fault + 'f" where
  "RTUUint16ToFloat64WithNaN F b =
     and_then (Uint16 b) (\<lambda>u.
       if u = 0xffff then Inr (NaN F) else Inr (of_uint16 F u))"

section \<open>Operations and the receiver\<close>

text \<open>
  The types \<open>Measurement\<close>, \<open>Operation\<close>, \<open>SplitResult\<close> and \<open>Splitter\<close>, the
  method \<open>Opcode\<close> of the embedded \<open>MeasurementMapping\<close> and the constants
  \<open>ReadHoldingReg\<close> and \<open>Split\<close> are declared outside this source file. A measurement
  is a value of any type \<open>'m\<close>. The receiver \<open>p\<close> carries the registry lookup
  \<open>Opcode\<close>; the two package constants are carried with it. The lookup is a total
  function here: a measurement for which the registry would abort the program is not an
  input of the model. The fields of the two structs are those that the source file assigns.
  A func-valued field that is left unset is \<open>None\<close>; the measurement of an operation that
  assigns none is the zero value of the type \<open>Measurement\<close>, a parameter.
\<close>

record 'm SunSpecCore =
  Opcode :: "'m \<Rightarrow> uint16"
  ReadHoldingReg :: byte
  Split :: 'm

record ('m, 'f) SplitResult =
  OpCode :: uint16
  IEC61850 :: 'm
  Value :: 'f

type_synonym ('m, 'f) Splitter = "bytes \<Rightarrow> fault + ('m, 'f) SplitResult list"

record ('m, 'f) Operation =
  FuncCode :: byte
  OpCode :: uint16
  ReadLen :: uint16
  IEC61850 :: 'm
  Transform :: "(bytes \<Rightarrow> fault + 'f) option"
  Splitter :: "('m, 'f) Splitter option"

definition GetSunSpecCommonBlock :: "'m SunSpecCore \<Rightarrow> 'm \<Rightarrow> ('m, 'f) Operation" where
  "GetSunSpecCommonBlock p zero_measurement =
     \<lparr>FuncCode = ReadHoldingReg p,
      OpCode = sunspecBase,
      ReadLen = word_of_int sunspecSerial,
      IEC61850 = zero_measurement,
      Transform = None,
      Splitter = None\<rparr>"

section \<open>Block reads\<close>

text \<open>\<open>minMax\<close>: the loop over the measurements, from \<open>min = 0xFFFF\<close>, \<open>max = 0\<close>.\<close>

fun minMax_loop :: "'m SunSpecCore \<Rightarrow> 'm list \<Rightarrow> uint16 \<times> uint16 \<Rightarrow> uint16 \<times> uint16" where
  "minMax_loop p [] (mn, mx) = (mn, mx)"
| "minMax_loop p (i # iec) (mn, mx) =
     (let op = Opcode p i;
          mn' = (if op < mn then op else mn);
          mx' = (if op > mx then op else mx)
      in minMax_loop p iec (mn', mx'))"

definition minMax :: "'m SunSpecCore \<Rightarrow> 'm list \<Rightarrow> uint16 \<times> uint16" where
  "minMax p iec = minMax_loop p iec (0xFFFF, 0x0000)"

definition scaleSnip16 ::
    "'m SunSpecCore \<Rightarrow> ('m list \<Rightarrow> ('m, 'f) Splitter) \<Rightarrow> 'm list \<Rightarrow> ('m, 'f) Operation" where
  "scaleSnip16 p splitter iecs =
     (case minMax p iecs of (mn, mx) \<Rightarrow>
        \<lparr>FuncCode = ReadHoldingReg p,
         OpCode = sunspecBase + mn - 1,
         ReadLen = mx - mn + 2,
         IEC61850 = Split p,
         Transform = None,
         Splitter = Some (splitter iecs)\<rparr>)"

definition scaleSnip32 ::
    "'m SunSpecCore \<Rightarrow> ('m list \<Rightarrow> ('m, 'f) Splitter) \<Rightarrow> 'm list \<Rightarrow> ('m, 'f) Operation" where
  "scaleSnip32 p splitter iecs =
     (let op = scaleSnip16 p splitter iecs
      in op\<lparr>ReadLen := (ReadLen op - 1) * 2 + 1\<rparr>)"

text \<open>
  The loop of the closure that \<open>mkBlockSplitter\<close> returns; \<open>res\<close> is the slice that the
  loop appends to. The index \<open>dataSize*(opcode-min)\<close> is computed in \<open>uint16\<close>.
\<close>

fun split_loop ::
    "'f float64_ops \<Rightarrow> 'm SunSpecCore \<Rightarrow> uint16 \<Rightarrow> (bytes \<Rightarrow> fault + 'f) \<Rightarrow> uint16 \<Rightarrow> 'f \<Rightarrow>
     bytes \<Rightarrow> 'm list \<Rightarrow> ('m, 'f) SplitResult list \<Rightarrow> fault + ('m, 'f) SplitResult list" where
  "split_loop F p dataSize valFunc mn scaler b [] res = Inr res"
| "split_loop F p dataSize valFunc mn scaler b (iec # iecs) res =
     (let opcode = Opcode p iec in
      and_then (slice_from b (uint (dataSize * (opcode - mn)))) (\<lambda>s.
      and_then (valFunc s) (\<lambda>val.
        if IsNaN F val then split_loop F p dataSize valFunc mn scaler b iecs res
        else
          (let op = \<lparr>SplitResult.OpCode = sunspecBase + opcode - 1,
                     SplitResult.IEC61850 = iec,
                     Value = mul F scaler val\<rparr>
           in split_loop F p dataSize valFunc mn scaler b iecs (res @ [op])))))"

definition mkBlockSplitter ::
    "'f float64_ops \<Rightarrow> 'm SunSpecCore \<Rightarrow> uint16 \<Rightarrow> (bytes \<Rightarrow> fault + 'f) \<Rightarrow> 'm list \<Rightarrow>
     ('m, 'f) Splitter" where
  "mkBlockSplitter F p dataSize valFunc iecs =
     (case minMax p iecs of (mn, _) \<Rightarrow>
        (\<lambda>b.
           and_then (slice_from b (len b - 2)) (\<lambda>t.
           and_then (Uint16 t) (\<lambda>u.
             (let exp = sint u;
                  scaler = Pow10 F exp
              in split_loop F p dataSize valFunc mn scaler b iecs [])))))"

definition mkSplitUint16 :: "'f float64_ops \<Rightarrow> 'm SunSpecCore \<Rightarrow> 'm list \<Rightarrow> ('m, 'f) Splitter" where
  "mkSplitUint16 F p iecs = mkBlockSplitter F p 2 (RTUUint16ToFloat64WithNaN F) iecs"

section \<open>Notions used to state the properties\<close>

text \<open>The first four bytes of the buffer are the ASCII letters \<open>SunS\<close>.\<close>

definition has_signature :: "bytes \<Rightarrow> bool" where
  "has_signature b \<longleftrightarrow> take 4 (elems b) = [0x53, 0x75, 0x6e, 0x53]"

text \<open>
  The text of the bytes \<open>lo..hi-1\<close> of the backing array (the slice and what follows it up
  to the capacity), trailing spaces and NUL bytes removed.
\<close>

definition field_text :: "bytes \<Rightarrow> nat \<Rightarrow> nat \<Rightarrow> string" where
  "field_text b lo hi =
     TrimRight (map (\<lambda>w. char_of (unat w)) (take (hi - lo) (drop lo (elems b @ spare b))))
       [CHR '' '', CHR 0x00]"

text \<open>
  What the loop of a splitter reads for one measurement: the slice \<open>b[dataSize*(opcode-min):]\<close>
  handed to the value function.
\<close>

definition reading ::
    "'m SunSpecCore \<Rightarrow> uint16 \<Rightarrow> (bytes \<Rightarrow> fault + 'f) \<Rightarrow> uint16 \<Rightarrow> bytes \<Rightarrow> 'm \<Rightarrow> fault + 'f" where
  "reading p dataSize valFunc mn b i =
     and_then (slice_from b (uint (dataSize * (Opcode p i - mn)))) valFunc"

text \<open>A measurement is kept when its reading is a value that is not a NaN.\<close>

definition kept :: "'f float64_ops \<Rightarrow> fault + 'f \<Rightarrow> bool" where
  "kept F r = (case r of Inl _ \<Rightarrow> False | Inr v \<Rightarrow> \<not> IsNaN F v)"

text \<open>The results that one measurement contributes to the output: one, or none.\<close>

definition emitted ::
    "'f float64_ops \<Rightarrow> 'm SunSpecCore \<Rightarrow> 'f \<Rightarrow> 'm \<Rightarrow> fault + 'f \<Rightarrow> ('m, 'f) SplitResult list" where
  "emitted F p scaler i r =
     (case r of
        Inl _ \<Rightarrow> []
      | Inr v \<Rightarrow>
          if IsNaN F v then []
          else [\<lparr>SplitResult.OpCode = sunspecBase + Opcode p i - 1,
                 SplitResult.IEC61850 = i,
                 Value = mul F scaler v\<rparr>])"

text \<open>The last two bytes of a block, as the big-endian \<open>uint16\<close> that holds the exponent.\<close>

definition last_uint16 :: "bytes \<Rightarrow> uint16" where
  "last_uint16 b = be16 (elems b ! (length (elems b) - 2)) (elems b ! (length (elems b) - 1))"

text \<open>
  The byte index of a measurement in a block, \<open>dataSize * (offset - min)\<close> in \<open>uint16\<close>, the
  two bytes found there, the sentinel \<open>0xFF 0xFF\<close>, and a block long enough for its
  exponent and for the two bytes of every measurement.
\<close>

definition byte_index :: "'m SunSpecCore \<Rightarrow> 'm list \<Rightarrow> uint16 \<Rightarrow> 'm \<Rightarrow> nat" where
  "byte_index p iecs dataSize i = unat (dataSize * (Opcode p i - fst (minMax p iecs)))"

definition raw_bytes :: "bytes \<Rightarrow> nat \<Rightarrow> byte list" where
  "raw_bytes b k = take 2 (drop k (elems b))"

definition sentinel_at :: "'m SunSpecCore \<Rightarrow> 'm list \<Rightarrow> bytes \<Rightarrow> 'm \<Rightarrow> bool" where
  "sentinel_at p iecs b i \<longleftrightarrow> raw_bytes b (byte_index p iecs 2 i) = [0xFF, 0xFF]"

definition block_covers :: "'m SunSpecCore \<Rightarrow> 'm list \<Rightarrow> bytes \<Rightarrow> bool" where
  "block_covers p iecs b \<longleftrightarrow>
     2 \<le> len b \<and> (\<forall>i \<in> set iecs. int (byte_index p iecs 2 i) + 2 \<le> len b)"

section \<open>Concrete inputs\<close>

text \<open>
  An instance for concrete evaluation: exact rational arithmetic, \<open>None\<close> for NaN.
\<close>

definition exact_ops :: "rat option float64_ops" where
  "exact_ops =
     \<lparr>NaN = None,
      IsNaN = (\<lambda>x. x = None),
      of_uint16 = (\<lambda>u. Some (of_nat (unat u))),
      Pow10 = (\<lambda>e. Some (if 0 \<le> e then 10 ^ nat e else 1 / 10 ^ nat (- e))),
      mul = (\<lambda>x y. case (x, y) of (Some a, Some b) \<Rightarrow> Some (a * b) | _ \<Rightarrow> None)\<rparr>"

text \<open>A registry in which measurement number \<open>m\<close> has the offset \<open>m\<close>.\<close>

definition registry :: "nat SunSpecCore" where
  "registry = \<lparr>Opcode = (\<lambda>m. word_of_nat m), ReadHoldingReg = 3, Split = 0\<rparr>"

text \<open>
  A second registry: the same offsets for the measurements 10, 11 and 12, offset 0 for
  every other measurement, and other package constants.
\<close>

definition registry_alt :: "nat SunSpecCore" where
  "registry_alt =
     \<lparr>Opcode = (\<lambda>m. if m \<in> {10, 11, 12} then word_of_nat m else 0),
      ReadHoldingReg = 4, Split = 1\<rparr>"

text \<open>
  A block for the measurements 10, 11 and 12 of \<open>registry\<close>: the raw values \<open>0x0102\<close>,
  the sentinel and \<open>0x0304\<close>, then the exponent \<open>-1\<close>.
\<close>

definition split_example :: bytes where
  "split_example = \<lparr>elems = [0x01, 0x02, 0xFF, 0xFF, 0x03, 0x04, 0xFF, 0xFF], spare = []\<rparr>"

text \<open>What the block holds for the measurements 10 and 12 in exact arithmetic.\<close>

definition split_example_results :: "(nat, rat option) SplitResult list" where
  "split_example_results =
     [\<lparr>SplitResult.OpCode = 40009, SplitResult.IEC61850 = 10, Value = Some (129 / 5)\<rparr>,
      \<lparr>SplitResult.OpCode = 40011, SplitResult.IEC61850 = 12, Value = Some (386 / 5)\<rparr>]"

text \<open>Buffers that start with the signature; \<open>0x20\<close> is a space, \<open>0x41\<close> the letter A.\<close>

definition suns :: "byte list" where
  "suns = [0x53, 0x75, 0x6e, 0x53]"

definition block_85 :: bytes where
  "block_85 = \<lparr>elems = suns @ replicate 81 0x20, spare = []\<rparr>"

definition block_134 :: bytes where
  "block_134 = \<lparr>elems = suns @ replicate 130 0x41, spare = []\<rparr>"

definition response_106 :: bytes where
  "response_106 = \<lparr>elems = suns @ replicate 102 0x41, spare = []\<rparr>"

definition response_106_in_larger_array :: bytes where
  "response_106_in_larger_array =
     \<lparr>elems = suns @ replicate 102 0x41, spare = replicate 29 0x00\<rparr>"

text \<open>
  A common block laid out by register: the signature in registers 1 and 2, the model
  identifier and length in 3 and 4, then the space-padded manufacturer (registers 5 to 20),
  model (21 to 36), eight registers of options, version (45 to 52) and serial (53 to 68);
  register \<open>r\<close> starts at byte \<open>2 * (r - 1)\<close>.
\<close>

definition ascii :: "string \<Rightarrow> byte list" where
  "ascii s = map (\<lambda>c. word_of_nat (of_char c)) s"

definition space_padded :: "nat \<Rightarrow> string \<Rightarrow> byte list" where
  "space_padded n s = ascii s @ replicate (n - length s) 0x20"

definition laid_out_block :: "string \<Rightarrow> string \<Rightarrow> string \<Rightarrow> string \<Rightarrow> bytes" where
  "laid_out_block mf md vs sn =
     \<lparr>elems = suns @ [0x00, 0x01, 0x00, 0x42]
              @ space_padded 32 mf @ space_padded 32 md
              @ replicate 16 0x00
              @ space_padded 16 vs @ space_padded 32 sn,
      spare = []\<rparr>"

section \<open>Basic facts\<close>

lemma and_then_Inr [simp]: "and_then (Inr x) k = k x"
  by (simp add: and_then_def)

lemma and_then_Inl [simp]: "and_then (Inl f) k = Inl f"
  by (simp add: and_then_def)

lemma slice_from_0: "slice_from b 0 = Inr b"
  by (simp add: slice_from_def len_def)

subsection \<open>Big-endian integers\<close>

lemma be16_bytes:
  "ucast (drop_bit 8 (be16 x y)) = x"
  "ucast (be16 x y) = y"
  unfolding be16_def
  by (rule bit_word_eqI; auto simp: bit_simps dest: bit_imp_le_length)+

lemma be16_sentinel: "be16 x y = 0xffff \<longleftrightarrow> x = 0xFF \<and> y = 0xFF"
proof
  assume h: "be16 x y = 0xffff"
  have "x = ucast (drop_bit 8 (be16 x y))" "y = ucast (be16 x y)"
    by (simp_all add: be16_bytes)
  then show "x = 0xFF \<and> y = 0xFF"
    unfolding h by simp
next
  assume "x = 0xFF \<and> y = 0xFF"
  then show "be16 x y = 0xffff"
    by (simp add: be16_def)
qed

lemma be16_plus: "be16 x y = ucast y + push_bit 8 (ucast x)"
  unfolding be16_def
  by (rule disjunctive_add [symmetric]) (auto simp: bit_simps dest: bit_imp_le_length)

lemma be16_of_nat: "be16 x y = word_of_nat (256 * unat x + unat y)"
proof -
  have "(ucast y :: uint16) = of_nat (unat y)" "(ucast x :: uint16) = of_nat (unat x)"
    by simp_all
  then show ?thesis
    by (simp add: be16_plus push_bit_eq_mult)
qed

lemma unat_be16: "unat (be16 x y) = 256 * unat x + unat y"
proof -
  have "unat x < 256" "unat y < 256"
    using unsigned_less [of x, where ?'a = nat] unsigned_less [of y, where ?'a = nat]
    by simp_all
  then have b: "256 * unat x + unat y < 2 ^ LENGTH(16)"
    by simp
  have "unat (be16 x y) = (256 * unat x + unat y) mod 2 ^ LENGTH(16)"
    unfolding be16_of_nat by (rule unat_of_nat)
  with b show ?thesis
    by (simp only: mod_less)
qed

lemma be32_bytes:
  "ucast (drop_bit 24 (be32 a b c d)) = a"
  "ucast (drop_bit 16 (be32 a b c d)) = b"
  "ucast (drop_bit 8 (be32 a b c d)) = c"
  "ucast (be32 a b c d) = d"
  unfolding be32_def
  by (rule bit_word_eqI; auto simp: bit_simps dest: bit_imp_le_length)+

lemma be32_signature:
  "be32 a b c d = sunsSignature \<longleftrightarrow> a = 0x53 \<and> b = 0x75 \<and> c = 0x6e \<and> d = 0x53"
proof
  assume h: "be32 a b c d = sunsSignature"
  have "a = ucast (drop_bit 24 (be32 a b c d))" "b = ucast (drop_bit 16 (be32 a b c d))"
       "c = ucast (drop_bit 8 (be32 a b c d))" "d = ucast (be32 a b c d)"
    by (simp_all add: be32_bytes)
  then show "a = 0x53 \<and> b = 0x75 \<and> c = 0x6e \<and> d = 0x53"
    unfolding h by (simp add: sunsSignature_def)
next
  assume "a = 0x53 \<and> b = 0x75 \<and> c = 0x6e \<and> d = 0x53"
  then show "be32 a b c d = sunsSignature"
    by (simp add: be32_def sunsSignature_def)
qed

lemma Uint16_eq:
  "Uint16 s = (case take 2 (elems s) of [x, y] \<Rightarrow> Inr (be16 x y) | _ \<Rightarrow> Inl IndexOutOfRange)"
proof (cases "elems s")
  case Nil
  then show ?thesis by (simp add: Uint16_def len_def)
next
  case (Cons x xs)
  then show ?thesis
    by (cases xs) (simp_all add: Uint16_def len_def)
qed

lemma Uint32_signature:
  assumes "4 \<le> len b"
  shows "Uint32 b = Inr sunsSignature \<longleftrightarrow> has_signature b"
proof -
  from assms have "Suc (Suc (Suc (Suc 0))) \<le> length (elems b)"
    by (simp add: len_def)
  then obtain a c d e rest where e: "elems b = a # c # d # e # rest"
    by (auto simp: Suc_le_length_iff)
  have "Uint32 b = Inr (be32 a c d e)"
    using assms by (simp add: Uint32_def e)
  then show ?thesis
    by (simp add: be32_signature has_signature_def e)
qed

lemma uint16_le_max: "x \<le> (0xFFFF :: uint16)"
proof -
  have "unat x < 2 ^ 16"
    using unsigned_less [of x, where ?'a = nat] by simp
  then show ?thesis
    by (simp add: word_le_nat_alt)
qed

lemma uint_in_range:
  fixes w :: uint16
  assumes "w = word_of_int k" and "0 \<le> k" and "k < 2 ^ 16"
  shows "uint w = k"
  using assms by (simp add: uint_word_of_int_eq take_bit_int_eq_self)

lemma span16_int:
  fixes mn mx :: uint16
  assumes le: "uint mn \<le> uint mx" and that: "uint mx - uint mn + 2 < 2 ^ 16"
  shows "uint (mx - mn + 2) = uint mx - uint mn + 2"
proof (rule uint_in_range)
  show "mx - mn + 2 = word_of_int (uint mx - uint mn + 2)"
    by simp
  show "0 \<le> uint mx - uint mn + 2"
    using le by linarith
  show "uint mx - uint mn + 2 < 2 ^ 16"
    by (rule that)
qed

lemma address_int:
  fixes mn :: uint16
  assumes that: "40000 + uint mn - 1 < 2 ^ 16"
  shows "uint (40000 + mn - 1) = 40000 + uint mn - 1"
proof (rule uint_in_range)
  show "40000 + mn - 1 = word_of_int (40000 + uint mn - 1)"
    by simp
  have "0 \<le> uint mn"
    by simp
  then show "0 \<le> 40000 + uint mn - 1"
    by linarith
  show "40000 + uint mn - 1 < 2 ^ 16"
    by (rule that)
qed

lemma span32_int:
  fixes mn mx :: uint16
  assumes le: "uint mn \<le> uint mx" and that: "(uint mx - uint mn + 1) * 2 + 1 < 2 ^ 16"
  shows "uint ((mx - mn + 1) * 2 + 1) = (uint mx - uint mn + 1) * 2 + 1"
proof (rule uint_in_range)
  show "(mx - mn + 1) * 2 + 1 = word_of_int ((uint mx - uint mn + 1) * 2 + 1)"
    by simp
  show "0 \<le> (uint mx - uint mn + 1) * 2 + 1"
    using le by simp
  show "(uint mx - uint mn + 1) * 2 + 1 < 2 ^ 16"
    by (rule that)
qed

section \<open>The outcomes of the common block decoder\<close>

text \<open>
  The slice that \<open>stringDecode\<close> takes for a field of \<open>n\<close> registers at register \<open>reg\<close> is
  \<open>b[2*(reg-1) : 2*(reg+n-1)-1]\<close>: it ends one byte before the end of the field, and it is
  in range when its upper bound is at most the capacity. For the four fields of the common
  block the bounds are 8..39, 40..71, 88..103 and 104..135.
\<close>

lemma stringDecode_fields:
  "stringDecode b 5 16 =
     (if 39 \<le> cap b then Inr (field_text b 8 39) else Inl SliceBoundsOutOfRange)"
  "stringDecode b 21 16 =
     (if 71 \<le> cap b then Inr (field_text b 40 71) else Inl SliceBoundsOutOfRange)"
  "stringDecode b 45 8 =
     (if 103 \<le> cap b then Inr (field_text b 88 103) else Inl SliceBoundsOutOfRange)"
  "stringDecode b 53 16 =
     (if 135 \<le> cap b then Inr (field_text b 104 135) else Inl SliceBoundsOutOfRange)"
  by (simp_all add: stringDecode_def slice_range_def string_of_def field_text_def )

lemmas sunspec_registers =
  sunspecID_def sunspecManufacturer_def sunspecModel_def sunspecVersion_def sunspecSerial_def

text \<open>
  The decoder has four outcomes. The length check compares \<open>len(b)\<close> with
  \<open>sunspecSerial + 2*16 = 85\<close>; the serial field needs a capacity of 135.
\<close>

lemma decode_too_short:
  "len b < 85 \<Longrightarrow> DecodeSunSpecCommonBlock b = Inr (zero_descriptor, Some CouldNotReadDescriptor)"
  by (simp add: DecodeSunSpecCommonBlock_def sunspecSerial_def)

lemma decode_invalid_signature:
  assumes "85 \<le> len b" and "\<not> has_signature b"
  shows "DecodeSunSpecCommonBlock b = Inr (zero_descriptor, Some InvalidSignature)"
proof -
  from assms(1) have l: "\<not> len b < 4" by simp
  then obtain u where u: "Uint32 b = Inr u"
    by (simp add: Uint32_def)
  with assms Uint32_signature [of b] have "u \<noteq> sunsSignature"
    by auto
  with assms(1) u show ?thesis
    by (simp add: DecodeSunSpecCommonBlock_def sunspec_registers slice_from_0)
qed

lemma decode_fault:
  assumes "85 \<le> len b" and "has_signature b" and "cap b < 135"
  shows "DecodeSunSpecCommonBlock b = Inl SliceBoundsOutOfRange"
proof -
  from assms Uint32_signature [of b] have u: "Uint32 b = Inr sunsSignature"
    by simp
  have c: "85 \<le> cap b"
    using assms(1) by (simp add: len_def cap_def)
  from assms(1,3) u c show ?thesis
    by (simp add: DecodeSunSpecCommonBlock_def sunspec_registers slice_from_0
          stringDecode_fields)
qed

lemma decode_success:
  assumes "85 \<le> len b" and "has_signature b" and "135 \<le> cap b"
  shows "DecodeSunSpecCommonBlock b =
           Inr (\<lparr>Manufacturer = field_text b 8 39, Model = field_text b 40 71,
                 Version = field_text b 88 103, Serial = field_text b 104 135\<rparr>, None)"
proof -
  from assms Uint32_signature [of b] have u: "Uint32 b = Inr sunsSignature"
    by simp
  from assms(1,3) u show ?thesis
    by (simp add: DecodeSunSpecCommonBlock_def sunspec_registers slice_from_0
          stringDecode_fields zero_descriptor_def)
qed

lemma decode_outcomes:
  "DecodeSunSpecCommonBlock b =
     (if len b < 85 then Inr (zero_descriptor, Some CouldNotReadDescriptor)
      else if \<not> has_signature b then Inr (zero_descriptor, Some InvalidSignature)
      else if cap b < 135 then Inl SliceBoundsOutOfRange
      else Inr (\<lparr>Manufacturer = field_text b 8 39, Model = field_text b 40 71,
                 Version = field_text b 88 103, Serial = field_text b 104 135\<rparr>, None))"
  by (simp add: decode_too_short decode_invalid_signature decode_fault decode_success)

subsection \<open>Strings shorter than their field\<close>

text \<open>
  A string that ends before the last byte of its field, and does not itself end in a space
  or a NUL, comes back as it was written.
\<close>

lemma char_of_ascii: "map (\<lambda>w. char_of (unat w)) (ascii s) = s"
proof -
  have "char_of (unat (word_of_nat (of_char c) :: byte)) = c" for c :: char
    by (simp add: unat_of_nat)
  then show ?thesis
    by (simp add: ascii_def comp_def)
qed

lemma char_of_space: "char_of (32 :: nat) = CHR '' ''"
  by code_simp

lemma length_space_padded: "length s \<le> n \<Longrightarrow> length (space_padded n s) = n"
  by (simp add: space_padded_def ascii_def)

lemma take_space_padded:
  "length s \<le> k \<Longrightarrow> k \<le> n \<Longrightarrow> take k (space_padded n s) = space_padded k s"
  by (simp add: space_padded_def ascii_def min_def)

lemma text_space_padded:
  "map (\<lambda>w. char_of (unat w)) (space_padded k s) = s @ replicate (k - length s) CHR '' ''"
  by (simp add: space_padded_def char_of_ascii char_of_space)

lemma dropWhile_replicate: "P c \<Longrightarrow> dropWhile P (replicate k c @ xs) = dropWhile P xs"
  by (induction k) simp_all

lemma TrimRight_padding:
  "TrimRight (s @ replicate k CHR '' '') [CHR '' '', CHR 0x00] = TrimRight s [CHR '' '', CHR 0x00]"
  by (simp add: TrimRight_def dropWhile_replicate)

lemma field_text_padded:
  assumes "length pre = lo" and "length s < n" and "hi = lo + n - 1"
    and "TrimRight s [CHR '' '', CHR 0x00] = s"
  shows "field_text \<lparr>elems = pre @ space_padded n s @ post, spare = sp\<rparr> lo hi = s"
proof -
  have "take (hi - lo) (drop lo ((pre @ space_padded n s @ post) @ sp)) =
      take (n - 1) (space_padded n s)"
    using assms(1,2,3) by (simp add: length_space_padded)
  also have "\<dots> = space_padded (n - 1) s"
    using assms(2) by (simp add: take_space_padded)
  finally show ?thesis
    using assms(4) by (simp add: field_text_def text_space_padded TrimRight_padding)
qed

lemma round_trip_of_shorter_strings:
  assumes "length mf < 32" and "length md < 32" and "length vs < 16" and "length sn < 32"
    and "TrimRight mf [CHR '' '', CHR 0x00] = mf" and "TrimRight md [CHR '' '', CHR 0x00] = md"
    and "TrimRight vs [CHR '' '', CHR 0x00] = vs" and "TrimRight sn [CHR '' '', CHR 0x00] = sn"
  shows "DecodeSunSpecCommonBlock (laid_out_block mf md vs sn) =
           Inr (\<lparr>Manufacturer = mf, Model = md, Version = vs, Serial = sn\<rparr>, None)"
proof -
  let ?b = "laid_out_block mf md vs sn"
  have l: "length (elems ?b) = 136"
    using assms(1-4) by (simp add: laid_out_block_def suns_def length_space_padded)
  have sig: "has_signature ?b"
    by (simp add: has_signature_def laid_out_block_def suns_def)
  have f1: "field_text ?b 8 39 = mf"
    unfolding laid_out_block_def
    using field_text_padded [of "suns @ [0x00, 0x01, 0x00, 0x42]" 8 mf 32 39, OF _ assms(1) _ assms(5)]
    by (simp add: suns_def)
  have f2: "field_text ?b 40 71 = md"
    unfolding laid_out_block_def
    using field_text_padded [of "suns @ [0x00, 0x01, 0x00, 0x42] @ space_padded 32 mf" 40 md 32 71,
        OF _ assms(2) _ assms(6)] assms(1)
    by (simp add: suns_def length_space_padded)
  have f3: "field_text ?b 88 103 = vs"
    unfolding laid_out_block_def
    using field_text_padded [of "suns @ [0x00, 0x01, 0x00, 0x42] @ space_padded 32 mf
        @ space_padded 32 md @ replicate 16 0x00" 88 vs 16 103, OF _ assms(3) _ assms(7)] assms(1,2)
    by (simp add: suns_def length_space_padded)
  have f4: "field_text ?b 104 135 = sn"
    unfolding laid_out_block_def
    using field_text_padded [of "suns @ [0x00, 0x01, 0x00, 0x42] @ space_padded 32 mf
        @ space_padded 32 md @ replicate 16 0x00 @ space_padded 16 vs" 104 sn 32 135 "[]" "[]",
        OF _ assms(4) _ assms(8)] assms(1,2,3)
    by (simp add: suns_def length_space_padded)
  have "DecodeSunSpecCommonBlock ?b =
      Inr (\<lparr>Manufacturer = field_text ?b 8 39, Model = field_text ?b 40 71,
            Version = field_text ?b 88 103, Serial = field_text ?b 104 135\<rparr>, None)"
    using sig by (intro decode_success) (simp_all add: len_def cap_def l)
  then show ?thesis
    by (simp only: f1 f2 f3 f4)
qed

section \<open>The loop of a splitter\<close>

lemma split_loop_returns:
  "\<forall>i \<in> set iecs. \<not> isl (reading p ds vf mn b i) \<Longrightarrow>
   split_loop F p ds vf mn sc b iecs res =
     Inr (res @ concat (map (\<lambda>i. emitted F p sc i (reading p ds vf mn b i)) iecs))"
proof (induction iecs arbitrary: res)
  case Nil
  then show ?case by simp
next
  case (Cons i iecs)
  then obtain v where v: "reading p ds vf mn b i = Inr v"
    by (cases "reading p ds vf mn b i") auto
  then obtain s where s: "slice_from b (uint (ds * (Opcode p i - mn))) = Inr s" "vf s = Inr v"
    by (cases "slice_from b (uint (ds * (Opcode p i - mn)))") (auto simp: reading_def)
  from Cons show ?case
    by (simp add: s v emitted_def Let_def)
qed

lemma split_loop_faults:
  "\<exists>i \<in> set iecs. isl (reading p ds vf mn b i) \<Longrightarrow>
   isl (split_loop F p ds vf mn sc b iecs res)"
proof (induction iecs arbitrary: res)
  case Nil
  then show ?case by simp
next
  case (Cons i iecs)
  show ?case
  proof (cases "reading p ds vf mn b i")
    case (Inl f)
    then show ?thesis
      by (cases "slice_from b (uint (ds * (Opcode p i - mn)))") (auto simp: reading_def Let_def)
  next
    case (Inr v)
    then obtain s where s: "slice_from b (uint (ds * (Opcode p i - mn))) = Inr s" "vf s = Inr v"
      by (cases "slice_from b (uint (ds * (Opcode p i - mn)))") (auto simp: reading_def)
    from Inr Cons.prems have "\<exists>i \<in> set iecs. isl (reading p ds vf mn b i)"
      by auto
    with Cons.IH show ?thesis
      by (simp add: s Let_def)
  qed
qed

lemma kept_ids:
  "map SplitResult.IEC61850 (concat (map (\<lambda>i. emitted F p sc i (r i)) iecs)) =
     filter (\<lambda>i. kept F (r i)) iecs"
  by (induction iecs) (auto simp: emitted_def kept_def split: sum.splits)

lemma exponent_read:
  "and_then (slice_from b (len b - 2)) Uint16 =
     (if 2 \<le> len b
      then Inr (be16 (elems b ! (length (elems b) - 2)) (elems b ! (length (elems b) - 1)))
      else Inl SliceBoundsOutOfRange)"
proof (cases "2 \<le> len b")
  case True
  then have n: "2 \<le> length (elems b)"
    by (simp add: len_def)
  then have "take 2 (drop (length (elems b) - 2) (elems b)) =
      [elems b ! (length (elems b) - 2), elems b ! (length (elems b) - 1)]"
    by (auto simp: list_eq_iff_nth_eq less_Suc_eq numeral_2_eq_2)
  moreover have "nat (len b - 2) = length (elems b) - 2"
    by (simp add: len_def)
  ultimately show ?thesis
    using True by (simp add: slice_from_def Uint16_eq)
next
  case False
  then show ?thesis
    by (simp add: slice_from_def)
qed

lemma mkBlockSplitter_eq:
  "mkBlockSplitter F p ds vf iecs b =
     and_then (and_then (slice_from b (len b - 2)) Uint16) (\<lambda>u.
       split_loop F p ds vf (fst (minMax p iecs)) (Pow10 F (sint u)) b iecs [])"
  by (cases "slice_from b (len b - 2)")
     (simp_all add: mkBlockSplitter_def split_beta Let_def)

lemma mkBlockSplitter_returns:
  assumes "2 \<le> len b"
    and "\<forall>i \<in> set iecs. \<not> isl (reading p ds vf (fst (minMax p iecs)) b i)"
  shows "mkBlockSplitter F p ds vf iecs b =
     Inr (concat (map (\<lambda>i. emitted F p (Pow10 F (sint (last_uint16 b))) i
                              (reading p ds vf (fst (minMax p iecs)) b i)) iecs))"
  using assms by (simp add: mkBlockSplitter_eq exponent_read split_loop_returns last_uint16_def)

lemma mkBlockSplitter_Inr:
  assumes "mkBlockSplitter F p ds vf iecs b = Inr res"
  shows "2 \<le> len b \<and> (\<forall>i \<in> set iecs. \<not> isl (reading p ds vf (fst (minMax p iecs)) b i))"
proof (intro conjI)
  show l: "2 \<le> len b"
    using assms by (auto simp: mkBlockSplitter_eq exponent_read split: if_splits)
  show "\<forall>i \<in> set iecs. \<not> isl (reading p ds vf (fst (minMax p iecs)) b i)"
  proof (rule ccontr)
    assume "\<not> ?thesis"
    then have "\<exists>i \<in> set iecs. isl (reading p ds vf (fst (minMax p iecs)) b i)"
      by auto
    from split_loop_faults [OF this, of F "Pow10 F (sint (last_uint16 b))" "[]"] assms l
    show False
      by (simp add: mkBlockSplitter_eq exponent_read last_uint16_def)
  qed
qed

subsection \<open>Readings of the unsigned 16-bit decoder\<close>

lemma reading_uint16:
  "reading p 2 (RTUUint16ToFloat64WithNaN F) mn b i =
     (case raw_bytes b (unat (2 * (Opcode p i - mn))) of
        [x, y] \<Rightarrow> Inr (if x = 0xFF \<and> y = 0xFF then NaN F else of_uint16 F (be16 x y))
      | _ \<Rightarrow> Inl (if unat (2 * (Opcode p i - mn)) \<le> length (elems b)
                  then IndexOutOfRange else SliceBoundsOutOfRange))"
proof -
  define k where "k = unat (2 * (Opcode p i - mn))"
  have u: "uint (2 * (Opcode p i - mn)) = int k"
    by (simp add: k_def)
  show ?thesis
  proof (cases "k \<le> length (elems b)")
    case True
    then show ?thesis
      unfolding reading_def u k_def [symmetric]
      by (simp add: slice_from_def len_def RTUUint16ToFloat64WithNaN_def Uint16_eq raw_bytes_def
            be16_sentinel split: list.splits)
  next
    case False
    then show ?thesis
      unfolding reading_def u k_def [symmetric]
      by (simp add: slice_from_def len_def raw_bytes_def)
  qed
qed

lemma raw_bytes_length: "length (raw_bytes b k) = 2 \<longleftrightarrow> int k + 2 \<le> len b"
  by (auto simp: raw_bytes_def len_def)

lemma reading_uint16_isl:
  "\<not> isl (reading p 2 (RTUUint16ToFloat64WithNaN F) mn b i) \<longleftrightarrow>
     int (unat (2 * (Opcode p i - mn))) + 2 \<le> len b"
  unfolding reading_uint16 raw_bytes_length [symmetric]
  by (auto split: list.splits)

lemma reading_uint16_kept:
  assumes "nan_sound F" and "int (unat (2 * (Opcode p i - mn))) + 2 \<le> len b"
  shows "kept F (reading p 2 (RTUUint16ToFloat64WithNaN F) mn b i) \<longleftrightarrow>
     raw_bytes b (unat (2 * (Opcode p i - mn))) \<noteq> [0xFF, 0xFF]"
proof -
  from assms(2) have "length (raw_bytes b (unat (2 * (Opcode p i - mn)))) = 2"
    by (simp add: raw_bytes_length)
  then obtain x y where xy: "raw_bytes b (unat (2 * (Opcode p i - mn))) = [x, y]"
    by (auto simp: length_Suc_conv numeral_2_eq_2)
  with assms(1) show ?thesis
    by (simp add: reading_uint16 kept_def nan_sound_def)
qed

lemma reading16_returns:
  "\<not> isl (reading p 2 (RTUUint16ToFloat64WithNaN F) (fst (minMax p iecs)) b i) \<longleftrightarrow>
     int (byte_index p iecs 2 i) + 2 \<le> len b"
  unfolding byte_index_def by (rule reading_uint16_isl)

lemma reading16_kept:
  assumes "nan_sound F" and "int (byte_index p iecs 2 i) + 2 \<le> len b"
  shows "kept F (reading p 2 (RTUUint16ToFloat64WithNaN F) (fst (minMax p iecs)) b i) \<longleftrightarrow>
     \<not> sentinel_at p iecs b i"
  using assms unfolding byte_index_def sentinel_at_def by (rule reading_uint16_kept)

subsection \<open>The registry matters only on the measurements of the list\<close>

lemma minMax_loop_cong:
  "\<forall>i \<in> set iecs. Opcode p' i = Opcode p i \<Longrightarrow> minMax_loop p' iecs acc = minMax_loop p iecs acc"
  by (induction p iecs acc rule: minMax_loop.induct) (simp_all add: Let_def)

lemma split_loop_cong:
  "\<forall>i \<in> set iecs. Opcode p' i = Opcode p i \<Longrightarrow>
   split_loop F p' ds vf mn sc b iecs res = split_loop F p ds vf mn sc b iecs res"
proof (induction iecs arbitrary: res)
  case Nil
  then show ?case by simp
next
  case (Cons i iecs)
  then have "Opcode p' i = Opcode p i" and "\<forall>i \<in> set iecs. Opcode p' i = Opcode p i"
    by simp_all
  with Cons.IH show ?case
    by (simp add: Let_def cong: if_cong)
qed

lemma mkBlockSplitter_cong:
  assumes "\<forall>i \<in> set iecs. Opcode p' i = Opcode p i"
  shows "mkBlockSplitter F p' ds vf iecs b = mkBlockSplitter F p ds vf iecs b"
  by (simp add: mkBlockSplitter_eq minMax_def minMax_loop_cong [OF assms]
        split_loop_cong [OF assms])

subsection \<open>Minimum and maximum\<close>

lemma minMax_loop_fold:
  "minMax_loop p iecs (a, c) =
     (fold min (map (Opcode p) iecs) a, fold max (map (Opcode p) iecs) c)"
proof (induction iecs arbitrary: a c)
  case Nil
  then show ?case by simp
next
  case (Cons i iecs)
  have "(if Opcode p i < a then Opcode p i else a) = min (Opcode p i) a"
    and "(if c < Opcode p i then Opcode p i else c) = max (Opcode p i) c"
    by (auto simp: min_def max_def)
  then show ?case
    by (simp add: Cons.IH Let_def)
qed

lemma minMax_nonempty:
  assumes "iecs \<noteq> []"
  shows "minMax p iecs = (Min (Opcode p ` set iecs), Max (Opcode p ` set iecs))"
proof -
  let ?S = "Opcode p ` set iecs"
  have ne: "?S \<noteq> {}" and fin: "finite ?S"
    using assms by simp_all
  have "fold min (map (Opcode p) iecs) 0xFFFF = Min (set (0xFFFF # map (Opcode p) iecs))"
    by (simp only: Min.set_eq_fold)
  also have "\<dots> = min 0xFFFF (Min ?S)"
    using ne fin by simp
  also have "\<dots> = Min ?S"
    by (simp add: min_def uint16_le_max antisym)
  finally have mn: "fold min (map (Opcode p) iecs) 0xFFFF = Min ?S" .
  have "fold max (map (Opcode p) iecs) 0 = Max (set (0 # map (Opcode p) iecs))"
    by (simp only: Max.set_eq_fold)
  also have "\<dots> = max 0 (Max ?S)"
    using ne fin by simp
  also have "\<dots> = Max ?S"
    by (simp add: max_def)
  finally have mx: "fold max (map (Opcode p) iecs) 0 = Max ?S" .
  show ?thesis
    by (simp add: minMax_def minMax_loop_fold mn mx)
qed

lemma Min_le_Max_image:
  assumes "iecs \<noteq> []"
  shows "Min (f ` set iecs) \<le> Max (f ` set iecs)"
proof -
  from assms obtain x where x: "x \<in> f ` set iecs"
    by (cases iecs) auto
  have "Min (f ` set iecs) \<le> x"
    using x by (intro Min_le) simp_all
  also have "x \<le> Max (f ` set iecs)"
    using x by (intro Max_ge) simp_all
  finally show ?thesis .
qed

lemma nan_sound_exact: "nan_sound exact_ops"
  by (simp add: nan_sound_def exact_ops_def)

section \<open>The claims\<close>

text \<open>
  C1. Claim: every buffer of at least 85 bytes (\<open>sunspecSerial + 2*16\<close>) that starts with
  the signature is decoded without an out-of-range fault. The code does not do this: the
  buffer of exactly 85 bytes, with no spare capacity, that holds the signature followed by
  spaces passes the length check and the signature check, and the decoder then panics, at
  the slice \<open>b[88:103]\<close> of the version field. The length check compares a number of bytes
  with a register number plus a number of bytes; the four slices need 135 bytes.
\<close>

theorem decode_faults_at_minimum_length:
  "len block_85 = sunspecSerial + 2 * 16 \<and> has_signature block_85 \<and>
   DecodeSunSpecCommonBlock block_85 = Inl SliceBoundsOutOfRange"
  by code_simp

text \<open>
  C2. Claim: the four strings come back with their padding stripped, the full span of
  \<open>2 * length\<close> bytes of each field being recovered. The code does not do this:
  \<open>stringDecode\<close> slices \<open>b[start:end-1]\<close>, one byte short of the field, so a manufacturer
  name that fills its 32 bytes loses its last character. The other three fields of the
  block below end in padding and come back whole, as every string shorter than its field
  does (\<open>round_trip_of_shorter_strings\<close>).
\<close>

theorem decode_drops_last_byte_of_field:
  "DecodeSunSpecCommonBlock
     (laid_out_block ''ABCDEFGHIJKLMNOPQRSTUVWXYZ012345'' ''SE5000'' ''0003.2186'' ''7E1A2B3C'') =
   Inr (\<lparr>Manufacturer = ''ABCDEFGHIJKLMNOPQRSTUVWXYZ01234'',
         Model = ''SE5000'',
         Version = ''0003.2186'',
         Serial = ''7E1A2B3C''\<rparr>, None)"
  by code_simp

text \<open>
  C3. For 16-bit unsigned measurements at the offsets 10 and 12 and a block of 8 bytes
  \<open>raw(10), raw(11), raw(12), exponent = -1\<close> in which neither \<open>raw(10)\<close> nor \<open>raw(12)\<close> is
  \<open>0xFFFF\<close>: the minimum is 10, the exponent read from the last two bytes is \<open>-1\<close>, the
  raw values are read at the byte indexes \<open>2 * (10 - 10)\<close> and \<open>2 * (12 - 10)\<close>, and the
  output is exactly two results, in this order: address \<open>40000 + 10 - 1\<close> with the value
  \<open>Pow10(-1) * float64(raw(10))\<close>, then address \<open>40000 + 12 - 1\<close> with the value
  \<open>Pow10(-1) * float64(raw(12))\<close>.
\<close>

theorem split_uint16_example:
  assumes "nan_sound F"
    and "Opcode p m1 = 10" and "Opcode p m2 = 12"
    and "elems b = [a1, a2, c1, c2, d1, d2, 0xFF, 0xFF]"
    and "\<not> (a1 = 0xFF \<and> a2 = 0xFF)" and "\<not> (d1 = 0xFF \<and> d2 = 0xFF)"
  shows "fst (minMax p [m1, m2]) = 10 \<and>
         sint (last_uint16 b) = - 1 \<and>
         raw_bytes b (2 * (10 - 10)) = [a1, a2] \<and>
         raw_bytes b (2 * (12 - 10)) = [d1, d2] \<and>
         mkSplitUint16 F p [m1, m2] b =
           Inr [\<lparr>SplitResult.OpCode = 40000 + 10 - 1, SplitResult.IEC61850 = m1,
                  Value = mul F (Pow10 F (- 1)) (of_uint16 F (word_of_nat (256 * unat a1 + unat a2)))\<rparr>,
                \<lparr>SplitResult.OpCode = 40000 + 12 - 1, SplitResult.IEC61850 = m2,
                  Value = mul F (Pow10 F (- 1)) (of_uint16 F (word_of_nat (256 * unat d1 + unat d2)))\<rparr>]"
proof -
  have mn: "minMax p [m1, m2] = (10, 12)"
    by (simp add: minMax_def assms(2,3) Let_def)
  have ex: "last_uint16 b = 0xFFFF"
    by (simp add: last_uint16_def assms(4) be16_def)
  have l: "len b = 8"
    by (simp add: len_def assms(4))
  have r1: "reading p 2 (RTUUint16ToFloat64WithNaN F) 10 b m1 = Inr (of_uint16 F (be16 a1 a2))"
    using assms(5) by (auto simp: reading_uint16 assms(2,4) raw_bytes_def)
  have r2: "reading p 2 (RTUUint16ToFloat64WithNaN F) 10 b m2 = Inr (of_uint16 F (be16 d1 d2))"
    using assms(6) by (auto simp: reading_uint16 assms(3,4) raw_bytes_def)
  have "mkSplitUint16 F p [m1, m2] b =
      Inr (concat (map (\<lambda>i. emitted F p (Pow10 F (sint (last_uint16 b))) i
             (reading p 2 (RTUUint16ToFloat64WithNaN F) (fst (minMax p [m1, m2])) b i)) [m1, m2]))"
    unfolding mkSplitUint16_def
    by (rule mkBlockSplitter_returns) (simp_all add: l mn r1 r2)
  then have "mkSplitUint16 F p [m1, m2] b =
           Inr [\<lparr>SplitResult.OpCode = 40000 + 10 - 1, SplitResult.IEC61850 = m1,
                  Value = mul F (Pow10 F (- 1)) (of_uint16 F (be16 a1 a2))\<rparr>,
                \<lparr>SplitResult.OpCode = 40000 + 12 - 1, SplitResult.IEC61850 = m2,
                  Value = mul F (Pow10 F (- 1)) (of_uint16 F (be16 d1 d2))\<rparr>]"
    using assms(1)
    by (simp add: mn ex r1 r2 emitted_def nan_sound_def assms(2,3) sunspecBase_def)
  then show ?thesis
    by (simp add: mn ex be16_of_nat raw_bytes_def assms(4))
qed

text \<open>The example at the registry and the block of the section on concrete inputs.\<close>

theorem split_uint16_example_witness:
  "nan_sound exact_ops \<and> Opcode registry 10 = 10 \<and> Opcode registry 12 = 12 \<and>
   elems split_example = [0x01, 0x02, 0xFF, 0xFF, 0x03, 0x04, 0xFF, 0xFF] \<and>
   mkSplitUint16 exact_ops registry [10, 12] split_example = Inr split_example_results"
proof -
  have h2: "Opcode registry 10 = 10" and h3: "Opcode registry 12 = 12"
    by (simp_all add: registry_def)
  have h4: "elems split_example = [0x01, 0x02, 0xFF, 0xFF, 0x03, 0x04, 0xFF, 0xFF]"
    by (simp add: split_example_def)
  have h5: "\<not> ((0x01 :: byte) = 0xFF \<and> (0x02 :: byte) = 0xFF)"
    and h6: "\<not> ((0x03 :: byte) = 0xFF \<and> (0x04 :: byte) = 0xFF)"
    by simp_all
  from split_uint16_example [OF nan_sound_exact h2 h3 h4 h5 h6] nan_sound_exact h2 h3 h4
  show ?thesis
    by (simp add: exact_ops_def split_example_results_def)
qed

text \<open>
  C4. For a non-empty list of measurements whose offsets have the minimum \<open>mn\<close> and the
  maximum \<open>mx\<close>, the operation built by \<open>scaleSnip16\<close> has \<open>ReadLen = (mx - mn) + 2\<close> and
  the address \<open>40000 + mn - 1\<close>, and the one built by \<open>scaleSnip32\<close> has
  \<open>ReadLen = ((mx - mn) + 1) * 2 + 1\<close>. The fields are \<open>uint16\<close> and the equations hold in
  that type; they hold of the integer values too whenever the integer result fits in 16
  bits.
\<close>

theorem block_span:
  fixes p :: "'m SunSpecCore" and splitter :: "'m list \<Rightarrow> ('m, 'f) Splitter"
  assumes "iecs \<noteq> []"
  defines "mn \<equiv> Min (Opcode p ` set iecs)" and "mx \<equiv> Max (Opcode p ` set iecs)"
  shows "ReadLen (scaleSnip16 p splitter iecs) = (mx - mn) + 2 \<and>
         Operation.OpCode (scaleSnip16 p splitter iecs) = 40000 + mn - 1 \<and>
         ReadLen (scaleSnip32 p splitter iecs) = ((mx - mn) + 1) * 2 + 1 \<and>
         Operation.OpCode (scaleSnip32 p splitter iecs) = 40000 + mn - 1 \<and>
         ((uint mx - uint mn) + 2 < 2 ^ 16 \<longrightarrow>
            uint (ReadLen (scaleSnip16 p splitter iecs)) = (uint mx - uint mn) + 2) \<and>
         (40000 + uint mn - 1 < 2 ^ 16 \<longrightarrow>
            uint (Operation.OpCode (scaleSnip16 p splitter iecs)) = 40000 + uint mn - 1) \<and>
         (((uint mx - uint mn) + 1) * 2 + 1 < 2 ^ 16 \<longrightarrow>
            uint (ReadLen (scaleSnip32 p splitter iecs)) = ((uint mx - uint mn) + 1) * 2 + 1)"
proof -
  have "mn \<le> mx"
    unfolding mn_def mx_def using assms(1) by (rule Min_le_Max_image)
  then have le: "uint mn \<le> uint mx"
    by (simp add: word_le_def)
  have mm: "minMax p iecs = (mn, mx)"
    unfolding mn_def mx_def using assms(1) by (rule minMax_nonempty)
  have r16: "ReadLen (scaleSnip16 p splitter iecs) = (mx - mn) + 2"
    by (simp add: scaleSnip16_def mm)
  have o16: "Operation.OpCode (scaleSnip16 p splitter iecs) = 40000 + mn - 1"
    by (simp add: scaleSnip16_def mm sunspecBase_def)
  have r32: "ReadLen (scaleSnip32 p splitter iecs) = ((mx - mn) + 1) * 2 + 1"
    using r16 by (simp add: scaleSnip32_def Let_def)
  have o32: "Operation.OpCode (scaleSnip32 p splitter iecs) = 40000 + mn - 1"
    using o16 by (simp add: scaleSnip32_def Let_def)
  have i16: "(uint mx - uint mn) + 2 < 2 ^ 16 \<longrightarrow>
      uint (ReadLen (scaleSnip16 p splitter iecs)) = (uint mx - uint mn) + 2"
    unfolding r16 using le by (intro impI span16_int)
  have io: "40000 + uint mn - 1 < 2 ^ 16 \<longrightarrow>
      uint (Operation.OpCode (scaleSnip16 p splitter iecs)) = 40000 + uint mn - 1"
    unfolding o16 by (intro impI address_int)
  have i32: "((uint mx - uint mn) + 1) * 2 + 1 < 2 ^ 16 \<longrightarrow>
      uint (ReadLen (scaleSnip32 p splitter iecs)) = ((uint mx - uint mn) + 1) * 2 + 1"
    unfolding r32 using le by (intro impI span32_int)
  from r16 o16 r32 o32 i16 io i32 show ?thesis
    by (intro conjI)
qed

theorem block_span_witness:
  "[10, 12] \<noteq> ([] :: nat list) \<and>
   ReadLen (scaleSnip16 registry (mkSplitUint16 exact_ops registry) [10, 12]) = 4 \<and>
   Operation.OpCode (scaleSnip16 registry (mkSplitUint16 exact_ops registry) [10, 12]) = 40009 \<and>
   ReadLen (scaleSnip32 registry (mkSplitUint16 exact_ops registry) [10, 12]) = 7 \<and>
   uint (ReadLen (scaleSnip16 registry (mkSplitUint16 exact_ops registry) [10, 12])) = 4 \<and>
   uint (Operation.OpCode (scaleSnip16 registry (mkSplitUint16 exact_ops registry) [10, 12])) = 40009 \<and>
   uint (ReadLen (scaleSnip32 registry (mkSplitUint16 exact_ops registry) [10, 12])) = 7"
proof -
  have ne: "[10, 12] \<noteq> ([] :: nat list)"
    by simp
  have mn: "Min (Opcode registry ` set [10, 12]) = 10"
    and mx: "Max (Opcode registry ` set [10, 12]) = 12"
    by (simp_all add: registry_def)
  from block_span [OF ne, of registry "mkSplitUint16 exact_ops registry"]
  show ?thesis
    unfolding mn mx by simp
qed

text \<open>
  C5. Claim: the decoder has exactly two failure modes, buffer too short when
  \<open>len(b) < 85\<close> and invalid signature otherwise when the first four bytes differ from
  \<open>0x53756e53\<close>, both with the zero descriptor, and in every other case it returns no error.
  The two error cases are as claimed (\<open>decode_too_short\<close>, \<open>decode_invalid_signature\<close>;
  \<open>decode_outcomes\<close> lists the four outcomes).
  The last part fails: a buffer of 134 bytes with no spare capacity that starts with the
  signature passes both checks, and the decoder neither returns an error nor a descriptor:
  it panics at the slice \<open>b[104:135]\<close> of the serial field.
\<close>

theorem decode_third_outcome:
  "\<not> len block_134 < 53 + 2 * 16 \<and> Uint32 block_134 = Inr 0x53756e53 \<and>
   DecodeSunSpecCommonBlock block_134 = Inl SliceBoundsOutOfRange"
  by code_simp

text \<open>
  C6. For a splitter built by \<open>mkSplitUint16\<close> and any block: when the block holds the
  exponent and two bytes for every measurement the splitter returns; and whenever it returns,
  the measurements of the results are, in order, the measurements of the list whose two raw
  bytes are not \<open>0xFF 0xFF\<close>, so that there are at most as many results as measurements and
  a measurement whose raw bytes are \<open>0xFF 0xFF\<close> has no result.
\<close>

theorem sentinel_skipped:
  assumes "nan_sound F"
  shows "(block_covers p iecs b \<longrightarrow> (\<exists>res. mkSplitUint16 F p iecs b = Inr res)) \<and>
         (\<forall>res. mkSplitUint16 F p iecs b = Inr res \<longrightarrow>
            map SplitResult.IEC61850 res = filter (\<lambda>i. \<not> sentinel_at p iecs b i) iecs \<and>
            length res \<le> length iecs \<and>
            (\<forall>i \<in> set iecs. sentinel_at p iecs b i \<longrightarrow> i \<notin> SplitResult.IEC61850 ` set res))"
proof (intro conjI allI impI ballI)
  assume "block_covers p iecs b"
  then have "2 \<le> len b"
    and "\<forall>i \<in> set iecs.
           \<not> isl (reading p 2 (RTUUint16ToFloat64WithNaN F) (fst (minMax p iecs)) b i)"
    by (simp_all add: block_covers_def reading16_returns)
  from mkBlockSplitter_returns [OF this]
  show "\<exists>res. mkSplitUint16 F p iecs b = Inr res"
    by (simp add: mkSplitUint16_def)
next
  fix res
  assume r: "mkSplitUint16 F p iecs b = Inr res"
  let ?mn = "fst (minMax p iecs)"
  let ?rd = "\<lambda>i. reading p 2 (RTUUint16ToFloat64WithNaN F) ?mn b i"
  from r have m: "mkBlockSplitter F p 2 (RTUUint16ToFloat64WithNaN F) iecs b = Inr res"
    by (simp add: mkSplitUint16_def)
  from mkBlockSplitter_Inr [OF m]
  have cov: "\<forall>i \<in> set iecs. int (byte_index p iecs 2 i) + 2 \<le> len b"
    by (simp add: reading16_returns)
  from mkBlockSplitter_Inr [OF m] mkBlockSplitter_returns [of b iecs p 2 _ F] m
  have "res = concat (map (\<lambda>i. emitted F p (Pow10 F (sint (last_uint16 b))) i (?rd i)) iecs)"
    by simp
  then have "map SplitResult.IEC61850 res = filter (\<lambda>i. kept F (?rd i)) iecs"
    by (simp only: kept_ids)
  also have "\<dots> = filter (\<lambda>i. \<not> sentinel_at p iecs b i) iecs"
    using cov assms
    by (intro filter_cong refl) (simp add: reading16_kept)
  finally show ids: "map SplitResult.IEC61850 res = filter (\<lambda>i. \<not> sentinel_at p iecs b i) iecs" .
  have "length res = length (map SplitResult.IEC61850 res)"
    by simp
  also have "\<dots> \<le> length iecs"
    unfolding ids by (rule length_filter_le)
  finally show "length res \<le> length iecs" .
  fix i
  assume "i \<in> set iecs" "sentinel_at p iecs b i"
  have "SplitResult.IEC61850 ` set res = set (map SplitResult.IEC61850 res)"
    by simp
  also have "\<dots> = {i \<in> set iecs. \<not> sentinel_at p iecs b i}"
    unfolding ids by simp
  finally show "i \<notin> SplitResult.IEC61850 ` set res"
    using \<open>sentinel_at p iecs b i\<close> by blast
qed

theorem sentinel_skipped_witness:
  "nan_sound exact_ops \<and>
   block_covers registry [10, 11, 12] split_example \<and>
   mkSplitUint16 exact_ops registry [10, 11, 12] split_example = Inr split_example_results \<and>
   11 \<in> set [10, 11, 12 :: nat] \<and>
   sentinel_at registry [10, 11, 12] split_example 11 \<and>
   map SplitResult.IEC61850 split_example_results =
     filter (\<lambda>i. \<not> sentinel_at registry [10, 11, 12] split_example i) [10, 11, 12] \<and>
   length split_example_results \<le> length [10, 11, 12 :: nat] \<and>
   11 \<notin> SplitResult.IEC61850 ` set split_example_results"
proof -
  have c: "block_covers registry [10, 11, 12] split_example"
    by code_simp
  have e: "mkSplitUint16 exact_ops registry [10, 11, 12] split_example = Inr split_example_results"
    by code_simp
  have s: "sentinel_at registry [10, 11, 12] split_example 11"
    by code_simp
  have m: "11 \<in> set [10, 11, 12 :: nat]"
    by simp
  from sentinel_skipped [OF nan_sound_exact, of registry "[10, 11, 12]" split_example] e
  have "map SplitResult.IEC61850 split_example_results =
      filter (\<lambda>i. \<not> sentinel_at registry [10, 11, 12] split_example i) [10, 11, 12] \<and>
    length split_example_results \<le> length [10, 11, 12 :: nat] \<and>
    (\<forall>i \<in> set [10, 11, 12]. sentinel_at registry [10, 11, 12] split_example i \<longrightarrow>
       i \<notin> SplitResult.IEC61850 ` set split_example_results)"
    by blast
  with nan_sound_exact c e s m show ?thesis
    by blast
qed

text \<open>
  C7. On an input of two bytes \<open>RTUUint16ToFloat64WithNaN\<close> returns \<open>math.NaN()\<close> when the
  bytes are \<open>0xFF 0xFF\<close> and otherwise the conversion to \<open>float64\<close> of the big-endian value
  \<open>256 * x + y\<close>; the result is a NaN exactly in the first case.
\<close>

theorem uint16_with_nan:
  assumes "nan_sound F" and "elems b = [x, y]"
  shows "RTUUint16ToFloat64WithNaN F b =
           Inr (if x = 0xFF \<and> y = 0xFF then NaN F
                else of_uint16 F (word_of_nat (256 * unat x + unat y))) \<and>
         (IsNaN F (if x = 0xFF \<and> y = 0xFF then NaN F
                   else of_uint16 F (word_of_nat (256 * unat x + unat y)))
            = (x = 0xFF \<and> y = 0xFF))"
proof -
  have u: "Uint16 b = Inr (be16 x y)"
    using assms(2) by (simp add: Uint16_eq)
  have e: "word_of_nat (256 * unat x + unat y) = be16 x y"
    by (simp only: be16_of_nat)
  have "RTUUint16ToFloat64WithNaN F b =
      Inr (if x = 0xFF \<and> y = 0xFF then NaN F else of_uint16 F (be16 x y))"
    by (simp add: RTUUint16ToFloat64WithNaN_def u be16_sentinel)
  with assms(1) show ?thesis
    unfolding e by (simp add: nan_sound_def)
qed

theorem uint16_with_nan_witness:
  "nan_sound exact_ops \<and>
   RTUUint16ToFloat64WithNaN exact_ops \<lparr>elems = [0xFF, 0xFF], spare = []\<rparr> = Inr None \<and>
   IsNaN exact_ops None \<and>
   RTUUint16ToFloat64WithNaN exact_ops \<lparr>elems = [0x12, 0x34], spare = []\<rparr> = Inr (Some 4660) \<and>
   \<not> IsNaN exact_ops (Some 4660)"
proof -
  have e1: "elems \<lparr>elems = [0xFF, 0xFF], spare = []\<rparr> = [0xFF, 0xFF]"
    and e2: "elems \<lparr>elems = [0x12, 0x34], spare = []\<rparr> = [0x12, 0x34]"
    by simp_all
  from uint16_with_nan [OF nan_sound_exact e1] uint16_with_nan [OF nan_sound_exact e2] nan_sound_exact
  show ?thesis
    by (simp add: exact_ops_def)
qed

text \<open>
  C8. Every splitter built by \<open>mkBlockSplitter\<close> whose value function is a function of the
  bytes: when it returns, the measurements of the results are the kept measurements of the
  argument list in the order of that list, and an invocation under any registry that
  resolves the measurements of the list to the same offsets returns the same results.
\<close>

theorem splitter_order_and_determinism:
  fixes p :: "'m SunSpecCore" and F :: "'f float64_ops"
  assumes "mkBlockSplitter F p ds vf iecs b = Inr res"
  shows "map SplitResult.IEC61850 res =
           filter (\<lambda>i. kept F (reading p ds vf (fst (minMax p iecs)) b i)) iecs \<and>
         subseq (map SplitResult.IEC61850 res) iecs \<and>
         (\<forall>p'. (\<forall>i \<in> set iecs. Opcode p' i = Opcode p i) \<longrightarrow>
               mkBlockSplitter F p' ds vf iecs b = Inr res)"
proof -
  from mkBlockSplitter_Inr [OF assms] mkBlockSplitter_returns [of b iecs p ds vf F] assms
  have "res = concat (map (\<lambda>i. emitted F p (Pow10 F (sint (last_uint16 b))) i
                              (reading p ds vf (fst (minMax p iecs)) b i)) iecs)"
    by simp
  then have ids: "map SplitResult.IEC61850 res =
      filter (\<lambda>i. kept F (reading p ds vf (fst (minMax p iecs)) b i)) iecs"
    by (simp only: kept_ids)
  moreover from ids have "subseq (map SplitResult.IEC61850 res) iecs"
    by simp
  moreover have "\<forall>p'. (\<forall>i \<in> set iecs. Opcode p' i = Opcode p i) \<longrightarrow>
               mkBlockSplitter F p' ds vf iecs b = Inr res"
  proof (intro allI impI)
    fix p' :: "'m SunSpecCore"
    assume "\<forall>i \<in> set iecs. Opcode p' i = Opcode p i"
    then have "mkBlockSplitter F p' ds vf iecs b = mkBlockSplitter F p ds vf iecs b"
      by (rule mkBlockSplitter_cong)
    also note assms
    finally show "mkBlockSplitter F p' ds vf iecs b = Inr res" .
  qed
  ultimately show ?thesis
    by blast
qed

theorem splitter_order_and_determinism_witness:
  "mkBlockSplitter exact_ops registry 2 (RTUUint16ToFloat64WithNaN exact_ops) [10, 11, 12]
     split_example = Inr split_example_results \<and>
   Opcode registry_alt 10 = Opcode registry 10 \<and>
   Opcode registry_alt 11 = Opcode registry 11 \<and>
   Opcode registry_alt 12 = Opcode registry 12 \<and>
   Opcode registry_alt 13 \<noteq> Opcode registry 13 \<and>
   map SplitResult.IEC61850 split_example_results = [10, 12] \<and>
   subseq (map SplitResult.IEC61850 split_example_results) [10, 11, 12] \<and>
   mkBlockSplitter exact_ops registry_alt 2 (RTUUint16ToFloat64WithNaN exact_ops) [10, 11, 12]
     split_example = Inr split_example_results"
proof -
  have e: "mkBlockSplitter exact_ops registry 2 (RTUUint16ToFloat64WithNaN exact_ops)
      [10, 11, 12] split_example = Inr split_example_results"
    by code_simp
  have a: "\<forall>i \<in> set [10, 11, 12]. Opcode registry_alt i = Opcode registry i"
    by (simp add: registry_alt_def registry_def)
  have d: "Opcode registry_alt 13 \<noteq> Opcode registry 13"
    by (simp add: registry_alt_def registry_def)
  have i: "map SplitResult.IEC61850 split_example_results = [10, 12]"
    by (simp add: split_example_results_def)
  from splitter_order_and_determinism [OF e] a
  have "subseq (map SplitResult.IEC61850 split_example_results) [10, 11, 12] \<and>
    mkBlockSplitter exact_ops registry_alt 2 (RTUUint16ToFloat64WithNaN exact_ops) [10, 11, 12]
      split_example = Inr split_example_results"
    by blast
  moreover from a have "Opcode registry_alt 10 = Opcode registry 10"
    and "Opcode registry_alt 11 = Opcode registry 11"
    and "Opcode registry_alt 12 = Opcode registry 12"
    by simp_all
  ultimately show ?thesis
    using e d i by blast
qed

text \<open>
  C9. Claim: a response of 106 bytes, the length that \<open>GetSunSpecCommonBlock\<close> requests,
  cannot be decoded: it passes the length check and the slice of the serial field faults. As
  stated this fails: the bound of a slice expression is checked against the capacity, and
  a slice of 106 bytes whose backing array has 29 more bytes is decoded without a fault,
  the serial being read from the last two bytes of the response and from what follows them
  in the array.
\<close>

theorem decode_106_with_spare_capacity:
  "len response_106_in_larger_array = 2 * 53 \<and>
   DecodeSunSpecCommonBlock response_106_in_larger_array =
     Inr (\<lparr>Manufacturer = ''AAAAAAAAAAAAAAAAAAAAAAAAAAAAAAA'',
           Model = ''AAAAAAAAAAAAAAAAAAAAAAAAAAAAAAA'',
           Version = ''AAAAAAAAAAAAAAA'',
           Serial = ''AA''\<rparr>, None)"
  by code_simp

text \<open>
  C9 as amended: \<open>GetSunSpecCommonBlock\<close> requests 53 registers; a response of 106 bytes
  whose capacity is below 135 (as when it has no spare capacity) passes the length check,
  its first three fields are decoded, the slice of the serial field is out of range, and
  the decoder panics when the signature is right and returns the invalid-signature error
  when it is not: it never returns a descriptor.
\<close>

theorem decode_106_faults_without_capacity:
  fixes p :: "'m SunSpecCore" and z :: 'm
  assumes "len b = 2 * uint (ReadLen (GetSunSpecCommonBlock p z :: ('m, 'f) Operation))"
    and "cap b < 135"
  shows "ReadLen (GetSunSpecCommonBlock p z :: ('m, 'f) Operation) = 53 \<and>
         len b = 106 \<and>
         \<not> len b < sunspecSerial + 2 * 16 \<and>
         stringDecode b sunspecManufacturer 16 = Inr (field_text b 8 39) \<and>
         stringDecode b sunspecModel 16 = Inr (field_text b 40 71) \<and>
         stringDecode b sunspecVersion 8 = Inr (field_text b 88 103) \<and>
         stringDecode b sunspecSerial 16 = Inl SliceBoundsOutOfRange \<and>
         DecodeSunSpecCommonBlock b =
           (if has_signature b then Inl SliceBoundsOutOfRange
            else Inr (zero_descriptor, Some InvalidSignature))"
proof -
  have r: "ReadLen (GetSunSpecCommonBlock p z :: ('m, 'f) Operation) = 53"
    by (simp add: GetSunSpecCommonBlock_def sunspecSerial_def)
  with assms(1) have l: "len b = 106"
    by simp
  then have c: "106 \<le> cap b"
    by (simp add: len_def cap_def)
  have "DecodeSunSpecCommonBlock b =
           (if has_signature b then Inl SliceBoundsOutOfRange
            else Inr (zero_descriptor, Some InvalidSignature))"
    using l assms(2) by (simp add: decode_fault decode_invalid_signature)
  with r l c assms(2) show ?thesis
    by (simp add: sunspec_registers stringDecode_fields)
qed

theorem decode_106_faults_without_capacity_witness:
  "len response_106 =
     2 * uint (ReadLen (GetSunSpecCommonBlock registry 0 :: (nat, rat option) Operation)) \<and>
   cap response_106 < 135 \<and>
   has_signature response_106 \<and>
   stringDecode response_106 sunspecSerial 16 = Inl SliceBoundsOutOfRange \<and>
   DecodeSunSpecCommonBlock response_106 = Inl SliceBoundsOutOfRange"
proof -
  have h1: "len response_106 =
      2 * uint (ReadLen (GetSunSpecCommonBlock registry 0 :: (nat, rat option) Operation))"
    by code_simp
  have h2: "cap response_106 < 135"
    by code_simp
  have h3: "has_signature response_106"
    by code_simp
  from decode_106_faults_without_capacity [OF h1 h2] h1 h2 h3 show ?thesis
    by simp
qed

text \<open>
  C10. For the empty list \<open>minMax\<close> returns \<open>(0xFFFF, 0)\<close> and \<open>scaleSnip16\<close> builds an
  operation with \<open>ReadLen = 3\<close>, which is \<open>0 - 0xFFFF + 2\<close> modulo \<open>2^16\<close>, at the address
  39998, which is \<open>40000 + 0xFFFF - 1\<close> modulo \<open>2^16\<close>, with the splitter of the empty list.
\<close>

theorem empty_list_wraps:
  "minMax p [] = (0xFFFF, 0) \<and>
   ReadLen (scaleSnip16 p splitter []) = 3 \<and>
   uint (ReadLen (scaleSnip16 p splitter [])) = (0 - 0xFFFF + 2) mod 2 ^ 16 \<and>
   Operation.OpCode (scaleSnip16 p splitter []) = 39998 \<and>
   uint (Operation.OpCode (scaleSnip16 p splitter [])) = (40000 + 0xFFFF - 1) mod 2 ^ 16 \<and>
   Splitter (scaleSnip16 p splitter []) = Some (splitter [])"
  by (simp add: scaleSnip16_def minMax_def sunspecBase_def)


end
